theory Spec2Isabelle
  imports Main
begin

section \<open>Effects and environment\<close>

text \<open>
  The program is a Node.js script. What it does to the outside world is recorded as a
  list of effects, in the order the script performs them. \<^verbatim>\<open>process.exit()\<close> without
  an argument ends the process with code 0.
\<close>

datatype effect =
    RandomBytes nat
  | MathRandom
  | OpenStdin
  | ConsoleLog string
  | ConsoleError string
  | ProcessExit nat

text \<open>
  What the platform hands back to the script. \<open>randomKey\<close> is the value of
  \<^verbatim>\<open>crypto.randomBytes(32).toString('hex')\<close>; \<open>randomIndex\<close> is the value of
  \<^verbatim>\<open>Math.floor(Math.random() * this.moves.length)\<close>, which lies in \<open>[0, length)\<close>
  because \<^verbatim>\<open>Math.random()\<close> lies in \<open>[0, 1)\<close>; \<open>hmacSha256Hex key message\<close> is the value
  of \<^verbatim>\<open>crypto.createHmac('sha256', key).update(message).digest('hex')\<close>; and
  \<open>tableToString head rows\<close> is the rendering by \<^verbatim>\<open>cli-table3\<close> of a table with the
  given head and rows. The last two are library functions that are not part of the
  repository, so they are parameters of the model.
\<close>

record env =
  randomKey :: string
  randomIndex :: nat
  hmacSha256Hex :: "string \<Rightarrow> string \<Rightarrow> string"
  tableToString :: "string list \<Rightarrow> string list list \<Rightarrow> string"

section \<open>Class CryptoGenerate\<close>

definition generateKey :: "env \<Rightarrow> string \<times> effect list" where
  "generateKey E = (randomKey E, [RandomBytes 32])"

definition generateHMAC :: "env \<Rightarrow> string \<Rightarrow> string \<Rightarrow> string" where
  "generateHMAC E key message = hmacSha256Hex E key message"

section \<open>Class PlayRules\<close>

text \<open>
  \<^verbatim>\<open>Array.prototype.indexOf\<close> on an array of strings: the index of the first element
  strictly equal to the argument, scanning from index 0, and \<open>-1\<close> when there is none.
  The scan carries the current index \<open>k\<close>.
\<close>

fun indexOfFrom :: "string list \<Rightarrow> string \<Rightarrow> int \<Rightarrow> int" where
  "indexOfFrom [] x k = - 1"
| "indexOfFrom (y # ys) x k = (if y = x then k else indexOfFrom ys x (k + 1))"

definition indexOf :: "string list \<Rightarrow> string \<Rightarrow> int" where
  "indexOf xs x = indexOfFrom xs x 0"

text \<open>
  An object of class \<^verbatim>\<open>PlayRules\<close>: the two fields its constructor sets.
\<close>

record PlayRules =
  moves :: "string list"
  numMoves :: int

definition newPlayRules :: "string list \<Rightarrow> PlayRules" where
  "newPlayRules ms = \<lparr> moves = ms, numMoves = int (length ms) \<rparr>"

text \<open>
  \<^verbatim>\<open>determineWinner(userMove, computerMove)\<close>. \<^verbatim>\<open>Math.floor(this.numMoves / 2)\<close> on a
  non-negative integer is integer division by two. The function has no failing path: it
  returns one of three strings.
\<close>

definition determineWinner :: "PlayRules \<Rightarrow> string \<Rightarrow> string \<Rightarrow> string" where
  "determineWinner this userMove computerMove =
     (let userIndex = indexOf (moves this) userMove;
          computerIndex = indexOf (moves this) computerMove
      in if userIndex = computerIndex then ''Draw''
         else
           (let half = numMoves this div 2
            in if (computerIndex > userIndex \<and> computerIndex \<le> userIndex + half) \<or>
                  (computerIndex < userIndex \<and> computerIndex + numMoves this \<le> userIndex + half)
               then ''Computer wins''
               else ''You win''))"

section \<open>Class HelpTable\<close>

text \<open>
  The class has the same two fields as \<^verbatim>\<open>PlayRules\<close> (\<^verbatim>\<open>moves\<close>, \<^verbatim>\<open>numMoves\<close>); the
  prefix keeps the selectors of the two records apart.
\<close>

record HelpTable =
  ht_moves :: "string list"
  ht_numMoves :: int

definition newHelpTable :: "string list \<Rightarrow> HelpTable" where
  "newHelpTable ms = \<lparr> ht_moves = ms, ht_numMoves = int (length ms) \<rparr>"

text \<open>
  The body of the inner loop of \<^verbatim>\<open>display\<close>: the text pushed to the row for row
  index \<open>i\<close> and column index \<open>j\<close>, by the formula written inline there.
\<close>

definition displayCell :: "HelpTable \<Rightarrow> int \<Rightarrow> int \<Rightarrow> string" where
  "displayCell this i j =
     (if i = j then ''Draw''
      else
        (let half = ht_numMoves this div 2
         in if (j > i \<and> j \<le> i + half) \<or> (j < i \<and> j + ht_numMoves this \<le> i + half)
            then ''Win''
            else ''Lose''))"

text \<open>The inner loop, over the column index \<open>j\<close>: one cell is appended per iteration.\<close>

function displayColumns :: "HelpTable \<Rightarrow> int \<Rightarrow> int \<Rightarrow> string list \<Rightarrow> string list" where
  "displayColumns this i j row =
     (if j < ht_numMoves this
      then displayColumns this i (j + 1) (row @ [displayCell this i j])
      else row)"
  by pat_completeness auto
termination
  by (relation "measure (\<lambda>(this, i, j, row). nat (ht_numMoves this - j))") auto

text \<open>
  The outer loop, over the row index \<open>i\<close>: each row starts with the label
  \<^verbatim>\<open>this.moves[i]\<close> and is pushed to the table. The constructor sets \<^verbatim>\<open>numMoves\<close> to the
  length of \<^verbatim>\<open>moves\<close>, so the index is in range.
\<close>

function displayRows :: "HelpTable \<Rightarrow> int \<Rightarrow> string list list \<Rightarrow> string list list" where
  "displayRows this i table =
     (if i < ht_numMoves this
      then displayRows this (i + 1)
             (table @ [displayColumns this i 0 [ht_moves this ! nat i]])
      else table)"
  by pat_completeness auto
termination
  by (relation "measure (\<lambda>(this, i, table). nat (ht_numMoves this - i))") auto

definition tableHead :: "HelpTable \<Rightarrow> string list" where
  "tableHead this = (''v PC'' @ [CHR 0x5C] @ ''User >'') # ht_moves this"

definition display :: "env \<Rightarrow> HelpTable \<Rightarrow> effect list" where
  "display E this =
     [ConsoleLog (''The results are from the user's point of view. For example, 'Rock' wins against 'Scissors' but loses to 'Paper'.'' @ [CHR 0x0A]),
      ConsoleLog (tableToString E (tableHead this) (displayRows this 0 []))]"

section \<open>Class RockPaperScissorsGame\<close>

record RockPaperScissorsGame =
  game_moves :: "string list"
  rules :: PlayRules

definition newRockPaperScissorsGame :: "string list \<Rightarrow> RockPaperScissorsGame" where
  "newRockPaperScissorsGame ms = \<lparr> game_moves = ms, rules = newPlayRules ms \<rparr>"

text \<open>The decimal text of a natural number, as a template literal prints it.\<close>

fun numberToString :: "nat \<Rightarrow> string" where
  "numberToString n =
     (if n < 10 then [''0123456789'' ! n]
      else numberToString (n div 10) @ [''0123456789'' ! (n mod 10)])"

text \<open>
  \<^verbatim>\<open>this.moves.forEach((move, index) => console.log(`${index + 1} - ${move}`))\<close>, which
  the source writes out in \<^verbatim>\<open>start\<close> and again in the listener.
\<close>

fun logMoves :: "string list \<Rightarrow> nat \<Rightarrow> effect list" where
  "logMoves [] index = []"
| "logMoves (move # rest) index =
     ConsoleLog (numberToString (index + 1) @ '' - '' @ move) # logMoves rest (index + 1)"

text \<open>
  The numbers that \<^verbatim>\<open>parseInt\<close> can return. \<open>Num v\<close> is the integer \<open>v\<close> with
  \<open>\<bar>v\<bar> < 2 ^ 53\<close>, which a double holds exactly and from which 1 can be subtracted
  exactly. \<open>Big\<close> stands for every double of magnitude \<open>2 ^ 53\<close> or more, the infinities
  included: there the double is the parsed integer rounded, and its value is not modelled.
\<close>

datatype number = NaN | Num (theNum: int) | Big

definition isDigit :: "char \<Rightarrow> bool" where
  "isDigit ch = (48 \<le> (of_char ch :: nat) \<and> (of_char ch :: nat) \<le> 57)"

definition digitsValue :: "string \<Rightarrow> int" where
  "digitsValue ds = foldl (\<lambda>acc ch. 10 * acc + (int (of_char ch) - 48)) 0 ds"

text \<open>
  \<^verbatim>\<open>parseInt(input, 10)\<close> on a string that is already trimmed: an optional sign, then
  the longest run of decimal digits; \<^verbatim>\<open>NaN\<close> when there is no digit.
\<close>

definition parseInt10 :: "string \<Rightarrow> number" where
  "parseInt10 s =
     (let sgn = (if s \<noteq> [] \<and> hd s = CHR ''-'' then - 1 else 1);
          body = (if s \<noteq> [] \<and> (hd s = CHR ''-'' \<or> hd s = CHR ''+'') then tl s else s);
          Z = takeWhile isDigit body
      in if Z = [] then NaN
         else if digitsValue Z < 2 ^ 53 then Num (sgn * digitsValue Z)
         else Big)"

text \<open>
  \<^verbatim>\<open>x - 1\<close> on such a number: \<^verbatim>\<open>NaN - 1\<close> is \<^verbatim>\<open>NaN\<close>, and a double of magnitude
  \<open>2 ^ 53\<close> or more stays one after the subtraction is rounded.
\<close>

fun minusOne :: "number \<Rightarrow> number" where
  "minusOne NaN = NaN"
| "minusOne (Num v) = Num (v - 1)"
| "minusOne Big = Big"

text \<open>
  \<^verbatim>\<open>moveIndex >= 0 && moveIndex < this.moves.length\<close>. Every comparison with \<^verbatim>\<open>NaN\<close> is
  false. An array has fewer than \<open>2 ^ 32\<close> elements, so a double of magnitude \<open>2 ^ 53\<close> or
  more is either negative or not below the length.
\<close>

fun inRange :: "number \<Rightarrow> nat \<Rightarrow> bool" where
  "inRange NaN len = False"
| "inRange (Num m) len = (m \<ge> 0 \<and> m < int len)"
| "inRange Big len = False"

text \<open>
  The listener that \<^verbatim>\<open>getUserMove\<close> registers, run over the data events that arrive.
  Each element of the list is the text of one event after \<^verbatim>\<open>d.toString().trim()\<close>.
  \<^verbatim>\<open>process.exit()\<close> ends the run, so later events are not looked at; when the events
  run out the process is still waiting.
\<close>

fun onData :: "env \<Rightarrow> RockPaperScissorsGame \<Rightarrow> string \<Rightarrow> string \<Rightarrow> string list \<Rightarrow> effect list" where
  "onData E this computerMove key [] = []"
| "onData E this computerMove key (input # later) =
     (if input = ''0'' then
        [ConsoleLog ''Exiting the game.'', ProcessExit 0]
      else if input = ''?'' then
        display E (newHelpTable (game_moves this))
        @ [ConsoleLog ''Enter your move:'']
        @ onData E this computerMove key later
      else
        (let moveIndex = minusOne (parseInt10 input)
         in if inRange moveIndex (length (game_moves this))
            then
              (let userMove = game_moves this ! nat (theNum moveIndex)
               in [ConsoleLog (''Your move: '' @ userMove),
                   ConsoleLog (''Computer move: '' @ computerMove),
                   ConsoleLog (determineWinner (rules this) userMove computerMove),
                   ConsoleLog (''HMAC key: '' @ key),
                   ProcessExit 0])
            else
              [ConsoleLog ''Invalid move. Please try again.'',
               ConsoleLog ''Available moves:'']
              @ logMoves (game_moves this) 0
              @ [ConsoleLog ''0 - exit'', ConsoleLog ''? - help'']
              @ onData E this computerMove key later))"

definition getUserMove :: "env \<Rightarrow> RockPaperScissorsGame \<Rightarrow> string \<Rightarrow> string \<Rightarrow> string list \<Rightarrow> effect list" where
  "getUserMove E this computerMove key inputs = OpenStdin # onData E this computerMove key inputs"

definition start :: "env \<Rightarrow> RockPaperScissorsGame \<Rightarrow> string list \<Rightarrow> effect list" where
  "start E this inputs =
     (let (key, keyEffects) = generateKey E;
          computerMove = game_moves this ! randomIndex E;
          hmac = generateHMAC E key computerMove
      in keyEffects
         @ [MathRandom,
            ConsoleLog (''HMAC: '' @ hmac),
            ConsoleLog ''Available moves:'']
         @ logMoves (game_moves this) 0
         @ [ConsoleLog ''0 - exit'', ConsoleLog ''? - help'']
         @ getUserMove E this computerMove key inputs)"

section \<open>The script\<close>

text \<open>
  The top level of the file: \<open>args\<close> is \<^verbatim>\<open>process.argv.slice(2)\<close>. The size of
  \<^verbatim>\<open>new Set(args)\<close> is the number of different strings in \<open>args\<close>.
\<close>

definition usageError :: "effect list" where
  "usageError =
     [ConsoleError (''Error: You must provide an odd number of non-repeating strings (''
                    @ [CHR 0xE2, CHR 0x89, CHR 0xA5] @ '' 3) as command line arguments.''),
      ConsoleError ''Example: node game.js rock paper scissors'',
      ProcessExit 1]"

definition main :: "env \<Rightarrow> string list \<Rightarrow> string list \<Rightarrow> effect list" where
  "main E args inputs =
     (if length args < 3 \<or> length args mod 2 = 0 \<or> card (set args) \<noteq> length args
      then usageError
      else start E (newRockPaperScissorsGame args) inputs)"

section \<open>The specification's vocabulary\<close>

text \<open>
  The outcome enumeration of the specification and the strings the code returns for its
  values.
\<close>

datatype Outcome = Draw | OpponentWins | HumanWins

fun outcomeText :: "Outcome \<Rightarrow> string" where
  "outcomeText Draw = ''Draw''"
| "outcomeText OpponentWins = ''Computer wins''"
| "outcomeText HumanWins = ''You win''"

text \<open>
  The modular form of the rule, written from the specification's words: with
  \<open>d = (c - u) mod N\<close>, a draw if \<open>d = 0\<close>, a win for the opponent if \<open>1 \<le> d \<le> half\<close>, a
  win for the human otherwise.
\<close>

definition modularForm :: "int \<Rightarrow> int \<Rightarrow> int \<Rightarrow> Outcome" where
  "modularForm N u c =
     (let d = (c - u) mod N; half = N div 2
      in if d = 0 then Draw
         else if 1 \<le> d \<and> d \<le> half then OpponentWins
         else HumanWins)"

text \<open>
  Modelled from the spec: \<^verbatim>\<open>verify(secretKey, move, tag)\<close>, which the repository does
  not contain (the program prints the key and leaves the check to the user). It
  recomputes the keyed digest and returns true iff the digests match exactly.
\<close>

definition verify :: "env \<Rightarrow> string \<Rightarrow> string \<Rightarrow> string \<Rightarrow> bool" where
  "verify E secretKey move tag = (generateHMAC E secretKey move = tag)"

section \<open>Vocabulary for the runs of the game\<close>

text \<open>
  The two ways the listener ends the process: the block logged when the user enters 0,
  and the block that shows the moves, the result and the key.
\<close>

definition exitBlock :: "effect list" where
  "exitBlock = [ConsoleLog ''Exiting the game.'', ProcessExit 0]"

definition revealBlock :: "RockPaperScissorsGame \<Rightarrow> string \<Rightarrow> string \<Rightarrow> string \<Rightarrow> effect list" where
  "revealBlock this computerMove key userMove =
     [ConsoleLog (''Your move: '' @ userMove),
      ConsoleLog (''Computer move: '' @ computerMove),
      ConsoleLog (determineWinner (rules this) userMove computerMove),
      ConsoleLog (''HMAC key: '' @ key),
      ProcessExit 0]"

text \<open>Effects that neither end the process nor report an error.\<close>

fun quiet :: "effect \<Rightarrow> bool" where
  "quiet (ProcessExit c) = False"
| "quiet (ConsoleError s) = False"
| "quiet e = True"

text \<open>
  The endings of a run: still waiting for input, the exit block, or the reveal block for
  a move of the list.
\<close>

definition ending :: "RockPaperScissorsGame \<Rightarrow> string \<Rightarrow> string \<Rightarrow> effect list \<Rightarrow> bool" where
  "ending this computerMove key fin =
     (fin = [] \<or> fin = exitBlock
      \<or> (\<exists>userMove \<in> set (game_moves this). fin = revealBlock this computerMove key userMove))"

section \<open>Properties of the index lookup\<close>

declare numberToString.simps [simp del]
declare displayColumns.simps [simp del]
declare displayRows.simps [simp del]

lemma indexOfFrom_absent: "x \<notin> set xs \<Longrightarrow> indexOfFrom xs x k = - 1"
  by (induction xs arbitrary: k) auto

lemma indexOf_absent: "x \<notin> set xs \<Longrightarrow> indexOf xs x = - 1"
  by (simp add: indexOf_def indexOfFrom_absent)

lemma indexOfFrom_range:
  "x \<in> set xs \<Longrightarrow> k \<le> indexOfFrom xs x k \<and> indexOfFrom xs x k < k + int (length xs)"
proof (induction xs arbitrary: k)
  case Nil
  then show ?case by simp
next
  case (Cons y ys)
  show ?case
  proof (cases "y = x")
    case True
    then show ?thesis by simp
  next
    case False
    with Cons.prems have "x \<in> set ys" by simp
    from Cons.IH [OF this, of "k + 1"] False show ?thesis by simp
  qed
qed

lemma indexOf_range: "x \<in> set xs \<Longrightarrow> 0 \<le> indexOf xs x \<and> indexOf xs x < int (length xs)"
  using indexOfFrom_range [of x xs 0] by (simp add: indexOf_def)

lemma indexOfFrom_nth:
  "distinct xs \<Longrightarrow> i < length xs \<Longrightarrow> indexOfFrom xs (xs ! i) k = k + int i"
proof (induction xs arbitrary: i k)
  case Nil
  then show ?case by simp
next
  case (Cons y ys)
  show ?case
  proof (cases i)
    case 0
    then show ?thesis by simp
  next
    case (Suc j)
    with Cons.prems have j: "j < length ys" and d: "distinct ys" and ne: "y \<noteq> ys ! j"
      by auto
    from Cons.IH [OF d j] Suc ne show ?thesis by simp
  qed
qed

lemma indexOf_nth: "distinct xs \<Longrightarrow> i < length xs \<Longrightarrow> indexOf xs (xs ! i) = int i"
  by (simp add: indexOf_def indexOfFrom_nth)

section \<open>The rule on indices\<close>

lemma mod_wrap:
  fixes N a :: int
  assumes "- N \<le> a" "a < 0"
  shows "a mod N = a + N"
proof -
  have "a mod N = (a + N) mod N" by simp
  also from assms have "\<dots> = a + N" by (intro mod_pos_pos_trivial) auto
  finally show ?thesis .
qed

text \<open>On indices in range, the modular form is the disjunctive rule.\<close>

lemma modularForm_cases:
  fixes N u c :: int
  assumes "0 \<le> u" "u < N" "0 \<le> c" "c < N"
  shows "modularForm N u c
         = (if u = c then Draw
            else if (c > u \<and> c \<le> u + N div 2) \<or> (c < u \<and> c + N \<le> u + N div 2)
                 then OpponentWins else HumanWins)"
proof -
  consider "c = u" | "u < c" | "c < u" by linarith
  then show ?thesis
  proof cases
    case 1
    then show ?thesis by (simp add: modularForm_def)
  next
    case 2
    with assms have "(c - u) mod N = c - u" by simp
    with 2 show ?thesis by (auto simp add: modularForm_def Let_def)
  next
    case 3
    with assms have "(c - u) mod N = c - u + N" by (intro mod_wrap) auto
    with 3 assms show ?thesis by (auto simp add: modularForm_def Let_def)
  qed
qed

text \<open>For odd \<open>N\<close>, swapping the two players swaps win and loss.\<close>

lemma modularForm_flip:
  fixes N u c :: int
  assumes "odd N" "0 \<le> u" "u < N" "0 \<le> c" "c < N"
  shows "modularForm N u c = HumanWins \<longleftrightarrow> modularForm N c u = OpponentWins"
proof -
  from assms(1) obtain h where h: "N = 2 * h + 1" by (elim oddE)
  then have hd: "N div 2 = h" by simp
  from assms show ?thesis
    unfolding modularForm_cases [OF assms(2-5)] modularForm_cases [OF assms(4,5,2,3)] hd
    using h by auto
qed

lemma modularForm_Draw:
  fixes N u c :: int
  assumes "0 \<le> u" "u < N" "0 \<le> c" "c < N"
  shows "modularForm N u c = Draw \<longleftrightarrow> u = c"
  by (simp add: modularForm_cases [OF assms])

lemma outcomeText_eq_iff:
  "outcomeText x = ''Draw'' \<longleftrightarrow> x = Draw"
  "outcomeText x = ''Computer wins'' \<longleftrightarrow> x = OpponentWins"
  "outcomeText x = ''You win'' \<longleftrightarrow> x = HumanWins"
  by (cases x; simp)+

lemma determineWinner_modular:
  assumes "a \<in> set ms" "b \<in> set ms"
  shows "determineWinner (newPlayRules ms) a b
         = outcomeText (modularForm (int (length ms)) (indexOf ms a) (indexOf ms b))"
proof -
  from assms have r: "0 \<le> indexOf ms a" "indexOf ms a < int (length ms)"
    "0 \<le> indexOf ms b" "indexOf ms b < int (length ms)"
    by (simp_all add: indexOf_range)
  show ?thesis
    unfolding modularForm_cases [OF r]
    by (simp add: determineWinner_def newPlayRules_def Let_def)
qed


section \<open>The loops of the help table\<close>

lemma displayColumns_eq:
  "displayColumns this i j row = row @ map (displayCell this i) [j..ht_numMoves this - 1]"
proof (induction this i j row rule: displayColumns.induct)
  case (1 this i j row)
  show ?case
  proof (cases "j < ht_numMoves this")
    case True
    then have "[j..ht_numMoves this - 1] = j # [j + 1..ht_numMoves this - 1]"
      by (simp add: upto_rec1)
    with True "1.IH" show ?thesis
      by (subst displayColumns.simps) simp
  next
    case False
    then show ?thesis
      by (subst displayColumns.simps) simp
  qed
qed

lemma displayRows_eq:
  "displayRows this i table
   = table @ map (\<lambda>r. displayColumns this r 0 [ht_moves this ! nat r]) [i..ht_numMoves this - 1]"
proof (induction this i table rule: displayRows.induct)
  case (1 this i table)
  show ?case
  proof (cases "i < ht_numMoves this")
    case True
    then have "[i..ht_numMoves this - 1] = i # [i + 1..ht_numMoves this - 1]"
      by (simp add: upto_rec1)
    with True "1.IH" show ?thesis
      by (subst displayRows.simps) simp
  next
    case False
    then show ?thesis
      by (subst displayRows.simps) simp
  qed
qed

lemma upto_nth_int:
  "0 \<le> k \<Longrightarrow> k < n \<Longrightarrow> [0..n - 1] ! nat k = k"
  by simp

lemma map_upto_nth:
  "0 \<le> k \<Longrightarrow> k < n \<Longrightarrow> map f [0..n - 1] ! nat k = f k"
  by simp

lemma displayRows_row:
  assumes "0 \<le> i" "i < int (length ms)"
  shows "displayRows (newHelpTable ms) 0 [] ! nat i
         = ms ! nat i # map (displayCell (newHelpTable ms) i) [0..int (length ms) - 1]"
proof -
  let ?T = "newHelpTable ms"
  have n: "ht_numMoves ?T = int (length ms)" and m: "ht_moves ?T = ms"
    by (simp_all add: newHelpTable_def)
  have "displayRows ?T 0 [] ! nat i
        = map (\<lambda>r. displayColumns ?T r 0 [ms ! nat r]) [0..int (length ms) - 1] ! nat i"
    by (simp add: displayRows_eq n m)
  also have "\<dots> = displayColumns ?T i 0 [ms ! nat i]"
    using assms by (rule map_upto_nth)
  also have "\<dots> = ms ! nat i # map (displayCell ?T i) [0..int (length ms) - 1]"
    by (simp add: displayColumns_eq n)
  finally show ?thesis .
qed

lemma displayRows_cell:
  assumes "0 \<le> i" "i < int (length ms)" "0 \<le> j" "j < int (length ms)"
  shows "displayRows (newHelpTable ms) 0 [] ! nat i ! nat (j + 1) = displayCell (newHelpTable ms) i j"
proof -
  from assms have "nat (j + 1) = Suc (nat j)" by simp
  with assms show ?thesis
    by (simp add: displayRows_row map_upto_nth del: nth_map)
qed

lemma displayCell_modular:
  assumes "0 \<le> i" "i < int (length ms)" "0 \<le> j" "j < int (length ms)"
  shows "displayCell (newHelpTable ms) i j
         = (case modularForm (int (length ms)) i j of
              Draw \<Rightarrow> ''Draw'' | OpponentWins \<Rightarrow> ''Win'' | HumanWins \<Rightarrow> ''Lose'')"
  unfolding modularForm_cases [OF assms]
  by (simp add: displayCell_def newHelpTable_def Let_def)

section \<open>Counting wins and losses\<close>




section \<open>The session\<close>

text \<open>
  In a run of the game that ends with a valid move, the key and the computer's move that
  the listener prints are the ones the tag printed by \<^verbatim>\<open>start\<close> was computed from.
\<close>

lemma start_valid_move:
  assumes "input \<noteq> ''0''" "input \<noteq> ''?''" "parseInt10 input = Num n" "1 \<le> n" "n \<le> int (length ms)"
  shows "start E (newRockPaperScissorsGame ms) [input]
         = [RandomBytes 32, MathRandom,
            ConsoleLog (''HMAC: '' @ generateHMAC E (randomKey E) (ms ! randomIndex E)),
            ConsoleLog ''Available moves:'']
           @ logMoves ms 0
           @ [ConsoleLog ''0 - exit'', ConsoleLog ''? - help'', OpenStdin,
              ConsoleLog (''Your move: '' @ ms ! nat (n - 1)),
              ConsoleLog (''Computer move: '' @ ms ! randomIndex E),
              ConsoleLog (determineWinner (newPlayRules ms) (ms ! nat (n - 1)) (ms ! randomIndex E)),
              ConsoleLog (''HMAC key: '' @ randomKey E),
              ProcessExit 0]"
  using assms
  by (simp add: start_def getUserMove_def generateKey_def newRockPaperScissorsGame_def Let_def)

lemma logMoves_quiet: "list_all quiet (logMoves ms k)"
  by (induction ms arbitrary: k) auto

lemma display_quiet: "list_all quiet (display E T)"
  by (simp add: display_def)

text \<open>
  A run of the listener is a sequence of quiet effects followed by one of the endings.
\<close>

lemma onData_shape:
  "\<exists>pre fin. onData E this cm key inputs = pre @ fin \<and> list_all quiet pre \<and> ending this cm key fin"
proof (induction inputs)
  case Nil
  have "onData E this cm key [] = [] @ [] \<and> list_all quiet [] \<and> ending this cm key []"
    by (simp add: ending_def)
  then show ?case by (intro exI)
next
  case (Cons input later)
  then obtain pre fin where od: "onData E this cm key later = pre @ fin"
    and q: "list_all quiet pre" and e: "ending this cm key fin"
    by (elim exE conjE)
  consider (quit) "input = ''0''" | (table) "input \<noteq> ''0''" "input = ''?''"
    | (valid) "input \<noteq> ''0''" "input \<noteq> ''?''"
        "inRange (minusOne (parseInt10 input)) (length (game_moves this))"
    | (rejected) "input \<noteq> ''0''" "input \<noteq> ''?''"
        "\<not> inRange (minusOne (parseInt10 input)) (length (game_moves this))"
    by blast
  then show ?case
  proof cases
    case quit
    then have "onData E this cm key (input # later) = [] @ exitBlock
        \<and> list_all quiet [] \<and> ending this cm key exitBlock"
      by (simp add: ending_def exitBlock_def)
    then show ?thesis by (intro exI)
  next
    case table
    let ?pre = "display E (newHelpTable (game_moves this)) @ [ConsoleLog ''Enter your move:''] @ pre"
    from table od have "onData E this cm key (input # later) = ?pre @ fin" by simp
    moreover from q have "list_all quiet ?pre" by (simp add: display_quiet)
    ultimately have "onData E this cm key (input # later) = ?pre @ fin
        \<and> list_all quiet ?pre \<and> ending this cm key fin"
      using e by simp
    then show ?thesis by (intro exI)
  next
    case valid
    from valid(3) obtain m where m: "minusOne (parseInt10 input) = Num m"
      "0 \<le> m" "m < int (length (game_moves this))"
      by (cases "minusOne (parseInt10 input)") auto
    let ?fin = "revealBlock this cm key (game_moves this ! nat m)"
    from m have mem: "game_moves this ! nat m \<in> set (game_moves this)" by simp
    then have "ending this cm key ?fin" unfolding ending_def by blast
    moreover from valid m have "onData E this cm key (input # later) = [] @ ?fin"
      by (simp add: Let_def revealBlock_def)
    ultimately have "onData E this cm key (input # later) = [] @ ?fin
        \<and> list_all quiet [] \<and> ending this cm key ?fin"
      by simp
    then show ?thesis by (intro exI)
  next
    case rejected
    let ?pre = "[ConsoleLog ''Invalid move. Please try again.'', ConsoleLog ''Available moves:'']
         @ logMoves (game_moves this) 0
         @ [ConsoleLog ''0 - exit'', ConsoleLog ''? - help''] @ pre"
    from rejected od have "onData E this cm key (input # later) = ?pre @ fin"
      by (simp add: Let_def)
    moreover from q have "list_all quiet ?pre" by (simp add: logMoves_quiet)
    ultimately have "onData E this cm key (input # later) = ?pre @ fin
        \<and> list_all quiet ?pre \<and> ending this cm key fin"
      using e by simp
    then show ?thesis by (intro exI)
  qed
qed

text \<open>
  A run of \<^verbatim>\<open>start\<close>: quiet effects that begin with the key draw, the move draw and the
  tag, followed by one of the endings, with the key and the move that \<^verbatim>\<open>start\<close> drew.
\<close>

lemma start_shape:
  "\<exists>pre fin. start E this inputs
       = [RandomBytes 32, MathRandom,
          ConsoleLog (''HMAC: '' @ generateHMAC E (randomKey E) (game_moves this ! randomIndex E))]
         @ pre @ fin
     \<and> list_all quiet pre
     \<and> ending this (game_moves this ! randomIndex E) (randomKey E) fin"
proof -
  let ?cm = "game_moves this ! randomIndex E"
  from onData_shape [of E this ?cm "randomKey E" inputs]
  obtain pre fin where od: "onData E this ?cm (randomKey E) inputs = pre @ fin"
    and q: "list_all quiet pre" and e: "ending this ?cm (randomKey E) fin"
    by (elim exE conjE)
  let ?pre = "ConsoleLog ''Available moves:'' # logMoves (game_moves this) 0
              @ [ConsoleLog ''0 - exit'', ConsoleLog ''? - help'', OpenStdin] @ pre"
  have "start E this inputs
        = [RandomBytes 32, MathRandom, ConsoleLog (''HMAC: '' @ generateHMAC E (randomKey E) ?cm)]
          @ ?pre @ fin"
    by (simp add: start_def getUserMove_def generateKey_def Let_def od)
  moreover from q have "list_all quiet ?pre" by (simp add: logMoves_quiet)
  ultimately have "start E this inputs
        = [RandomBytes 32, MathRandom, ConsoleLog (''HMAC: '' @ generateHMAC E (randomKey E) ?cm)]
          @ ?pre @ fin
      \<and> list_all quiet ?pre \<and> ending this ?cm (randomKey E) fin"
    using e by simp
  then show ?thesis by (intro exI)
qed

lemma quiet_no_exit: "list_all quiet xs \<Longrightarrow> ProcessExit c \<notin> set xs"
  by (induction xs) auto

lemma quiet_no_error: "list_all quiet xs \<Longrightarrow> ConsoleError s \<notin> set xs"
  by (induction xs) auto

text \<open>
  When a run of \<^verbatim>\<open>start\<close> ends with a reveal block, the revealed key and move are the
  ones \<^verbatim>\<open>start\<close> drew.
\<close>

lemma start_reveal:
  assumes "start E this inputs
           = pre @ [A, ConsoleLog (''Computer move: '' @ m), R,
                    ConsoleLog (''HMAC key: '' @ k), ProcessExit 0]"
  shows "k = randomKey E \<and> m = game_moves this ! randomIndex E"
proof -
  let ?cm = "game_moves this ! randomIndex E"
  let ?head = "[RandomBytes 32, MathRandom, ConsoleLog (''HMAC: '' @ generateHMAC E (randomKey E) ?cm)]"
  from start_shape [of E this inputs]
  obtain pre' fin where run: "start E this inputs = ?head @ pre' @ fin"
    and q: "list_all quiet pre'" and e: "ending this ?cm (randomKey E) fin"
    by (elim exE conjE)
  have qh: "list_all quiet (?head @ pre')" using q by simp
  from e consider (waiting) "fin = []" | (quit) "fin = exitBlock"
    | (revealed) userMove where "fin = revealBlock this ?cm (randomKey E) userMove"
    unfolding ending_def by blast
  then show ?thesis
  proof cases
    case waiting
    from assms have "ProcessExit 0 \<in> set (start E this inputs)" by simp
    with run waiting have "ProcessExit 0 \<in> set (?head @ pre')" by simp
    with quiet_no_exit [OF qh, of 0] show ?thesis by blast
  next
    case quit
    from run assms quit have
      "(pre @ [A, ConsoleLog (''Computer move: '' @ m), R]) @ [ConsoleLog (''HMAC key: '' @ k), ProcessExit 0]
       = (?head @ pre') @ [ConsoleLog ''Exiting the game.'', ProcessExit 0]"
      by (simp add: exitBlock_def)
    then have "[ConsoleLog (''HMAC key: '' @ k), ProcessExit 0]
               = [ConsoleLog ''Exiting the game.'', ProcessExit 0]"
      by (subst (asm) append_eq_append_conv) simp_all
    then show ?thesis by simp
  next
    case revealed
    from run assms revealed have
      "pre @ [A, ConsoleLog (''Computer move: '' @ m), R,
              ConsoleLog (''HMAC key: '' @ k), ProcessExit 0]
       = (?head @ pre') @ revealBlock this ?cm (randomKey E) userMove"
      by simp
    then have "[A, ConsoleLog (''Computer move: '' @ m), R,
              ConsoleLog (''HMAC key: '' @ k), ProcessExit 0]
       = revealBlock this ?cm (randomKey E) userMove"
      by (subst (asm) append_eq_append_conv) (simp_all add: revealBlock_def)
    then show ?thesis by (simp add: revealBlock_def)
  qed
qed

section \<open>The claims\<close>

text \<open>
  C1. For a list of distinct labels of odd length \<open>N \<ge> 3\<close> and indices \<open>u\<close>, \<open>c\<close> below
  \<open>N\<close>, the disjunctive rule of \<^verbatim>\<open>determineWinner\<close> on the moves at \<open>u\<close> and \<open>c\<close> gives the
  outcome of the modular form on \<open>d = (c - u) mod N\<close>.
\<close>

theorem C1_disjunctive_is_modular:
  assumes "distinct ms" "odd (length ms)" "3 \<le> length ms" "u < length ms" "c < length ms"
  shows "determineWinner (newPlayRules ms) (ms ! u) (ms ! c)
         = outcomeText (modularForm (int (length ms)) (int u) (int c))"
proof -
  from assms have "ms ! u \<in> set ms" "ms ! c \<in> set ms" by simp_all
  then have "determineWinner (newPlayRules ms) (ms ! u) (ms ! c)
             = outcomeText (modularForm (int (length ms)) (indexOf ms (ms ! u)) (indexOf ms (ms ! c)))"
    by (rule determineWinner_modular)
  with assms show ?thesis by (simp add: indexOf_nth)
qed

theorem C1_witness:
  "determineWinner (newPlayRules [''a'', ''b'', ''c'', ''d'', ''e'']) ''d'' ''b''
     = outcomeText (modularForm 5 3 1)
   \<and> modularForm 5 3 1 = HumanWins"
  using C1_disjunctive_is_modular [of "[''a'', ''b'', ''c'', ''d'', ''e'']" 3 1]
  by (simp add: modularForm_def)

text \<open>
  C2. For a list of distinct labels of odd length \<open>N \<ge> 3\<close> and members \<open>A\<close>, \<open>B\<close>: \<open>A\<close>
  against itself is a draw; \<open>A\<close> against \<open>B\<close> is a win for the user exactly when \<open>B\<close> against
  \<open>A\<close> is a win for the computer; and the two orderings are never both wins for the user
  nor both wins for the computer.
\<close>

theorem C2_antisymmetric:
  assumes "distinct ms" "odd (length ms)" "3 \<le> length ms" "A \<in> set ms" "B \<in> set ms"
  shows "determineWinner (newPlayRules ms) A A = ''Draw''
       \<and> (determineWinner (newPlayRules ms) A B = ''You win''
            \<longleftrightarrow> determineWinner (newPlayRules ms) B A = ''Computer wins'')
       \<and> \<not> (determineWinner (newPlayRules ms) A B = ''You win''
            \<and> determineWinner (newPlayRules ms) B A = ''You win'')
       \<and> \<not> (determineWinner (newPlayRules ms) A B = ''Computer wins''
            \<and> determineWinner (newPlayRules ms) B A = ''Computer wins'')"
proof -
  let ?N = "int (length ms)" and ?u = "indexOf ms A" and ?c = "indexOf ms B"
  from assms have r: "0 \<le> ?u" "?u < ?N" "0 \<le> ?c" "?c < ?N"
    by (simp_all add: indexOf_range)
  from assms have oddN: "odd ?N" by simp
  have ab: "determineWinner (newPlayRules ms) A B = outcomeText (modularForm ?N ?u ?c)"
    using assms(4,5) by (rule determineWinner_modular)
  have ba: "determineWinner (newPlayRules ms) B A = outcomeText (modularForm ?N ?c ?u)"
    using assms(5,4) by (rule determineWinner_modular)
  have f1: "modularForm ?N ?u ?c = HumanWins \<longleftrightarrow> modularForm ?N ?c ?u = OpponentWins"
    using oddN r by (rule modularForm_flip)
  have f2: "modularForm ?N ?c ?u = HumanWins \<longleftrightarrow> modularForm ?N ?u ?c = OpponentWins"
    using oddN r(3,4,1,2) by (rule modularForm_flip)
  have "determineWinner (newPlayRules ms) A A = ''Draw''"
    by (simp add: determineWinner_def)
  moreover have "determineWinner (newPlayRules ms) A B = ''You win''
                 \<longleftrightarrow> determineWinner (newPlayRules ms) B A = ''Computer wins''"
    unfolding ab ba outcomeText_eq_iff by (rule f1)
  moreover have "\<not> (determineWinner (newPlayRules ms) A B = ''You win''
                    \<and> determineWinner (newPlayRules ms) B A = ''You win'')"
    unfolding ab ba outcomeText_eq_iff using f1 by auto
  moreover have "\<not> (determineWinner (newPlayRules ms) A B = ''Computer wins''
                    \<and> determineWinner (newPlayRules ms) B A = ''Computer wins'')"
    unfolding ab ba outcomeText_eq_iff using f2 by auto
  ultimately show ?thesis by blast
qed

theorem C2_witness:
  "determineWinner (newPlayRules [''Rock'', ''Paper'', ''Scissors'']) ''Rock'' ''Rock'' = ''Draw''
   \<and> determineWinner (newPlayRules [''Rock'', ''Paper'', ''Scissors'']) ''Rock'' ''Scissors'' = ''You win''
   \<and> determineWinner (newPlayRules [''Rock'', ''Paper'', ''Scissors'']) ''Scissors'' ''Rock'' = ''Computer wins''"
proof -
  have yw: "determineWinner (newPlayRules [''Rock'', ''Paper'', ''Scissors'']) ''Rock'' ''Scissors'' = ''You win''"
    by (simp add: determineWinner_def newPlayRules_def indexOf_def)
  from C2_antisymmetric [of "[''Rock'', ''Paper'', ''Scissors'']" "''Rock''" "''Scissors''"] yw
  show ?thesis by simp
qed



text \<open>
  C4. For a list of distinct labels of odd length \<open>N \<ge> 3\<close>, a row index \<open>i\<close> (the
  computer's move) and a column index \<open>j\<close> (the user's move) in \<open>[0, N)\<close>: the cell that
  \<^verbatim>\<open>display\<close> puts in row \<open>i\<close> under column \<open>j\<close> (after the row's label) is
  \<^verbatim>\<open>determineWinner(moves[j], moves[i])\<close> seen by the user: Draw for Draw, Win for You win,
  Lose for Computer wins.
\<close>

theorem C4_help_table_agrees:
  assumes "distinct ms" "odd (length ms)" "3 \<le> length ms"
    and "0 \<le> i" "i < int (length ms)" "0 \<le> j" "j < int (length ms)"
  shows "(displayRows (newHelpTable ms) 0 [] ! nat i ! nat (j + 1) = ''Draw''
            \<longleftrightarrow> determineWinner (newPlayRules ms) (ms ! nat j) (ms ! nat i) = ''Draw'')
       \<and> (displayRows (newHelpTable ms) 0 [] ! nat i ! nat (j + 1) = ''Win''
            \<longleftrightarrow> determineWinner (newPlayRules ms) (ms ! nat j) (ms ! nat i) = ''You win'')
       \<and> (displayRows (newHelpTable ms) 0 [] ! nat i ! nat (j + 1) = ''Lose''
            \<longleftrightarrow> determineWinner (newPlayRules ms) (ms ! nat j) (ms ! nat i) = ''Computer wins'')
       \<and> displayRows (newHelpTable ms) 0 [] ! nat i ! nat (j + 1) = displayCell (newHelpTable ms) i j"
proof -
  let ?N = "int (length ms)"
  from assms have mem: "ms ! nat j \<in> set ms" "ms ! nat i \<in> set ms" by simp_all
  from assms have idx: "indexOf ms (ms ! nat j) = j" "indexOf ms (ms ! nat i) = i"
    by (simp_all add: indexOf_nth)
  have dw: "determineWinner (newPlayRules ms) (ms ! nat j) (ms ! nat i)
            = outcomeText (modularForm ?N j i)"
    by (simp add: determineWinner_modular [OF mem] idx)
  have pos: "displayRows (newHelpTable ms) 0 [] ! nat i ! nat (j + 1) = displayCell (newHelpTable ms) i j"
    using assms(4-7) by (rule displayRows_cell)
  have cell: "displayRows (newHelpTable ms) 0 [] ! nat i ! nat (j + 1)
              = (case modularForm ?N i j of
                   Draw \<Rightarrow> ''Draw'' | OpponentWins \<Rightarrow> ''Win'' | HumanWins \<Rightarrow> ''Lose'')"
    using assms by (simp add: pos displayCell_modular)
  from assms have oddN: "odd ?N" by simp
  have f1: "modularForm ?N j i = HumanWins \<longleftrightarrow> modularForm ?N i j = OpponentWins"
    using oddN assms(6,7,4,5) by (rule modularForm_flip)
  have f2: "modularForm ?N i j = HumanWins \<longleftrightarrow> modularForm ?N j i = OpponentWins"
    using oddN assms(4-7) by (rule modularForm_flip)
  have d1: "modularForm ?N i j = Draw \<longleftrightarrow> i = j"
    using assms(4-7) by (rule modularForm_Draw)
  have d2: "modularForm ?N j i = Draw \<longleftrightarrow> j = i"
    using assms(6,7,4,5) by (rule modularForm_Draw)
  have "(displayRows (newHelpTable ms) 0 [] ! nat i ! nat (j + 1) = ''Draw''
            \<longleftrightarrow> determineWinner (newPlayRules ms) (ms ! nat j) (ms ! nat i) = ''Draw'')
       \<and> (displayRows (newHelpTable ms) 0 [] ! nat i ! nat (j + 1) = ''Win''
            \<longleftrightarrow> determineWinner (newPlayRules ms) (ms ! nat j) (ms ! nat i) = ''You win'')
       \<and> (displayRows (newHelpTable ms) 0 [] ! nat i ! nat (j + 1) = ''Lose''
            \<longleftrightarrow> determineWinner (newPlayRules ms) (ms ! nat j) (ms ! nat i) = ''Computer wins'')"
    unfolding dw cell outcomeText_eq_iff
    using f1 f2 d1 d2 by (cases "modularForm ?N i j"; cases "modularForm ?N j i"; simp)
  with pos show ?thesis by simp
qed

theorem C4_witness:
  "displayRows (newHelpTable [''Rock'', ''Paper'', ''Scissors'']) 0 [] ! 0 ! 2 = ''Win''
   \<and> determineWinner (newPlayRules [''Rock'', ''Paper'', ''Scissors'']) ''Paper'' ''Rock'' = ''You win''"
proof -
  have yw: "determineWinner (newPlayRules [''Rock'', ''Paper'', ''Scissors'']) ''Paper'' ''Rock'' = ''You win''"
    by (simp add: determineWinner_def newPlayRules_def indexOf_def)
  from C4_help_table_agrees [of "[''Rock'', ''Paper'', ''Scissors'']" 0 1] yw
  show ?thesis by simp
qed

text \<open>
  C5. Claimed: \<^verbatim>\<open>determineWinner\<close> fails when a label is absent from the move list. The
  code has no failing path: the absent label is looked up as index \<open>-1\<close> and one of the
  three outcome strings comes back. With [Rock, Paper, Scissors], the absent label Lizard
  against Rock is reported as a win for the computer.
\<close>

theorem C5_counterexample:
  "''Lizard'' \<notin> set (moves (newPlayRules [''Rock'', ''Paper'', ''Scissors'']))
   \<and> determineWinner (newPlayRules [''Rock'', ''Paper'', ''Scissors'']) ''Lizard'' ''Rock''
       = ''Computer wins''"
  by (simp add: determineWinner_def newPlayRules_def indexOf_def)

text \<open>
  C5, amended. When a label is absent from the move list, \<^verbatim>\<open>determineWinner\<close> reports no
  error: the lookup of the absent label gives \<open>-1\<close> and one of the three outcome strings
  is returned. It is Draw when both labels are absent. When only the user's label is
  absent it is Computer wins if the computer's index is below half, else You win. When
  only the computer's label is absent it is Computer wins if the user's index plus half
  reaches \<open>numMoves - 1\<close>, else You win.
\<close>

theorem C5_absent_label_returns_outcome:
  assumes "a \<notin> set (moves this) \<or> b \<notin> set (moves this)"
  shows "(a \<notin> set (moves this) \<longrightarrow> indexOf (moves this) a = - 1)
       \<and> (b \<notin> set (moves this) \<longrightarrow> indexOf (moves this) b = - 1)
       \<and> determineWinner this a b
           = (if a \<notin> set (moves this) \<and> b \<notin> set (moves this) then ''Draw''
              else if a \<notin> set (moves this) then
                (if indexOf (moves this) b < numMoves this div 2
                 then ''Computer wins'' else ''You win'')
              else
                (if numMoves this - 1 \<le> indexOf (moves this) a + numMoves this div 2
                 then ''Computer wins'' else ''You win''))"
proof -
  consider (both) "a \<notin> set (moves this)" "b \<notin> set (moves this)"
    | (user) "a \<notin> set (moves this)" "b \<in> set (moves this)"
    | (computer) "a \<in> set (moves this)" "b \<notin> set (moves this)"
    using assms by blast
  then show ?thesis
  proof cases
    case both
    then show ?thesis by (simp add: determineWinner_def indexOf_absent)
  next
    case user
    from user(2) have "0 \<le> indexOf (moves this) b" by (simp add: indexOf_range)
    with user show ?thesis by (auto simp add: determineWinner_def indexOf_absent Let_def)
  next
    case computer
    from computer(1) have "0 \<le> indexOf (moves this) a" by (simp add: indexOf_range)
    with computer show ?thesis by (auto simp add: determineWinner_def indexOf_absent Let_def)
  qed
qed

theorem C5_witness:
  "''Rock'' \<in> set (moves (newPlayRules [''Rock'', ''Paper'', ''Scissors'']))
   \<and> ''Lizard'' \<notin> set (moves (newPlayRules [''Rock'', ''Paper'', ''Scissors'']))
   \<and> indexOf (moves (newPlayRules [''Rock'', ''Paper'', ''Scissors''])) ''Lizard'' = - 1
   \<and> determineWinner (newPlayRules [''Rock'', ''Paper'', ''Scissors'']) ''Rock'' ''Lizard'' = ''You win''
   \<and> determineWinner (newPlayRules [''Rock'', ''Paper'', ''Scissors'']) ''Lizard'' ''Paper'' = ''You win''
   \<and> determineWinner (newPlayRules [''Rock'', ''Paper'', ''Scissors'']) ''Lizard'' ''Spock'' = ''Draw''"
  using C5_absent_label_returns_outcome
    [of "''Rock''" "newPlayRules [''Rock'', ''Paper'', ''Scissors'']" "''Lizard''"]
    C5_absent_label_returns_outcome
    [of "''Lizard''" "newPlayRules [''Rock'', ''Paper'', ''Scissors'']" "''Paper''"]
    C5_absent_label_returns_outcome
    [of "''Lizard''" "newPlayRules [''Rock'', ''Paper'', ''Scissors'']" "''Spock''"]
  by (simp add: newPlayRules_def indexOf_def)

text \<open>
  C6. The script signals a configuration error (two lines on the error stream, then exit
  with code 1, and nothing else: no random bytes are drawn and nothing is logged)
  exactly when the argument list has even length, fewer than three elements or a repeated
  label. For distinct labels of odd length \<open>\<ge> 3\<close> it builds the game and starts it: the
  key is drawn, the computer's move is drawn, the tag over them is logged, and the run
  writes nothing to the error stream and never exits with code 1.
\<close>

theorem C6_configuration_error:
  "(main E args inputs
      = [ConsoleError (''Error: You must provide an odd number of non-repeating strings (''
                       @ [CHR 0xE2, CHR 0x89, CHR 0xA5] @ '' 3) as command line arguments.''),
         ConsoleError ''Example: node game.js rock paper scissors'',
         ProcessExit 1]
      \<longleftrightarrow> even (length args) \<or> length args < 3 \<or> \<not> distinct args)
   \<and> (even (length args) \<or> length args < 3 \<or> \<not> distinct args \<longrightarrow>
        (\<forall>n. RandomBytes n \<notin> set (main E args inputs))
        \<and> MathRandom \<notin> set (main E args inputs)
        \<and> (\<forall>s. ConsoleLog s \<notin> set (main E args inputs)))
   \<and> (distinct args \<and> odd (length args) \<and> 3 \<le> length args \<longrightarrow>
        take 3 (main E args inputs)
          = [RandomBytes 32, MathRandom,
             ConsoleLog (''HMAC: '' @ generateHMAC E (randomKey E) (args ! randomIndex E))]
        \<and> (\<forall>s. ConsoleError s \<notin> set (main E args inputs))
        \<and> ProcessExit 1 \<notin> set (main E args inputs))"
proof -
  let ?G = "newRockPaperScissorsGame args"
  let ?bad = "even (length args) \<or> length args < 3 \<or> \<not> distinct args"
  let ?head = "[RandomBytes 32, MathRandom,
                ConsoleLog (''HMAC: '' @ generateHMAC E (randomKey E) (args ! randomIndex E))]"
  have c: "card (set args) \<noteq> length args \<longleftrightarrow> \<not> distinct args"
    using card_distinct [of args] distinct_card [of args] by blast
  have gm: "game_moves ?G = args" by (simp add: newRockPaperScissorsGame_def)
  from start_shape [of E ?G inputs]
  obtain pre fin where run: "start E ?G inputs = ?head @ pre @ fin"
    and q: "list_all quiet pre" and e: "ending ?G (args ! randomIndex E) (randomKey E) fin"
    unfolding gm by (elim exE conjE)
  have t3: "take 3 (start E ?G inputs) = ?head" unfolding run by simp
  have fin_err: "ConsoleError s \<notin> set fin" for s
    using e by (auto simp add: ending_def exitBlock_def revealBlock_def)
  have fin_exit: "ProcessExit 1 \<notin> set fin"
    using e by (auto simp add: ending_def exitBlock_def revealBlock_def)
  have no_err: "ConsoleError s \<notin> set (start E ?G inputs)" for s
    unfolding run using quiet_no_error [OF q, of s] fin_err [of s] by simp
  have no_exit: "ProcessExit 1 \<notin> set (start E ?G inputs)"
    unfolding run using quiet_no_exit [OF q, of 1] fin_exit by simp
  have bad: "main E args inputs = usageError" if ?bad
    using that unfolding main_def c by (auto simp add: even_iff_mod_2_eq_zero)
  have good: "main E args inputs = start E ?G inputs" if "\<not> ?bad"
    using that unfolding main_def c by (auto simp add: even_iff_mod_2_eq_zero)
  have ne: "start E ?G inputs \<noteq> usageError"
    unfolding run by (simp add: usageError_def)
  have "main E args inputs = usageError \<longleftrightarrow> ?bad"
    using bad good ne by metis
  then have p1: "main E args inputs
      = [ConsoleError (''Error: You must provide an odd number of non-repeating strings (''
                       @ [CHR 0xE2, CHR 0x89, CHR 0xA5] @ '' 3) as command line arguments.''),
         ConsoleError ''Example: node game.js rock paper scissors'',
         ProcessExit 1] \<longleftrightarrow> ?bad"
    by (simp add: usageError_def)
  have p2: "?bad \<longrightarrow>
        (\<forall>n. RandomBytes n \<notin> set (main E args inputs))
        \<and> MathRandom \<notin> set (main E args inputs)
        \<and> (\<forall>s. ConsoleLog s \<notin> set (main E args inputs))"
    using bad by (auto simp add: usageError_def)
  have p3: "distinct args \<and> odd (length args) \<and> 3 \<le> length args \<longrightarrow>
        take 3 (main E args inputs) = ?head
        \<and> (\<forall>s. ConsoleError s \<notin> set (main E args inputs))
        \<and> ProcessExit 1 \<notin> set (main E args inputs)"
  proof
    assume "distinct args \<and> odd (length args) \<and> 3 \<le> length args"
    then have "\<not> ?bad" by auto
    then have "main E args inputs = start E ?G inputs" by (rule good)
    with t3 no_err no_exit show "take 3 (main E args inputs) = ?head
        \<and> (\<forall>s. ConsoleError s \<notin> set (main E args inputs))
        \<and> ProcessExit 1 \<notin> set (main E args inputs)"
      by simp
  qed
  from p1 p2 p3 show ?thesis by (intro conjI)
qed

theorem C6_witness:
  "main \<lparr> randomKey = ''ab'', randomIndex = 1, hmacSha256Hex = (\<lambda>key message. key @ message),
          tableToString = (\<lambda>head rows. concat head) \<rparr>
     [''Rock'', ''Paper''] []
     = [ConsoleError (''Error: You must provide an odd number of non-repeating strings (''
                       @ [CHR 0xE2, CHR 0x89, CHR 0xA5] @ '' 3) as command line arguments.''),
        ConsoleError ''Example: node game.js rock paper scissors'',
        ProcessExit 1]
   \<and> main \<lparr> randomKey = ''ab'', randomIndex = 1, hmacSha256Hex = (\<lambda>key message. key @ message),
          tableToString = (\<lambda>head rows. concat head) \<rparr>
     [''Rock'', ''Rock'', ''Paper''] []
     = [ConsoleError (''Error: You must provide an odd number of non-repeating strings (''
                       @ [CHR 0xE2, CHR 0x89, CHR 0xA5] @ '' 3) as command line arguments.''),
        ConsoleError ''Example: node game.js rock paper scissors'',
        ProcessExit 1]
   \<and> take 3 (main \<lparr> randomKey = ''ab'', randomIndex = 1, hmacSha256Hex = (\<lambda>key message. key @ message),
          tableToString = (\<lambda>head rows. concat head) \<rparr>
     [''Rock'', ''Paper'', ''Scissors''] [''2''])
     = [RandomBytes 32, MathRandom, ConsoleLog ''HMAC: abPaper'']
   \<and> ProcessExit 1 \<notin> set (main \<lparr> randomKey = ''ab'', randomIndex = 1,
          hmacSha256Hex = (\<lambda>key message. key @ message),
          tableToString = (\<lambda>head rows. concat head) \<rparr>
     [''Rock'', ''Paper'', ''Scissors''] [''2''])"
  using
    C6_configuration_error [of "\<lparr> randomKey = ''ab'', randomIndex = 1,
        hmacSha256Hex = (\<lambda>key message. key @ message),
        tableToString = (\<lambda>head rows. concat head) \<rparr>" "[''Rock'', ''Paper'']" "[]"]
    C6_configuration_error [of "\<lparr> randomKey = ''ab'', randomIndex = 1,
        hmacSha256Hex = (\<lambda>key message. key @ message),
        tableToString = (\<lambda>head rows. concat head) \<rparr>" "[''Rock'', ''Rock'', ''Paper'']" "[]"]
    C6_configuration_error [of "\<lparr> randomKey = ''ab'', randomIndex = 1,
        hmacSha256Hex = (\<lambda>key message. key @ message),
        tableToString = (\<lambda>head rows. concat head) \<rparr>" "[''Rock'', ''Paper'', ''Scissors'']" "[''2'']"]
  by (simp add: generateHMAC_def)

text \<open>
  C7. Whenever the tag is the keyed digest of a key and a move, recomputing the digest
  from that key and that move and comparing gives true. In every run of the game, the tag
  logged at the start and the key and move revealed at the end are so related: the shown
  tag is the digest of the revealed key and the revealed move, and the check on them
  gives true.
\<close>

theorem C7_commit_verify_round_trip:
  "(tag = generateHMAC E secretKey M \<longrightarrow> verify E secretKey M tag)
   \<and> (start E this inputs ! 2 = ConsoleLog (''HMAC: '' @ shown)
        \<and> start E this inputs
            = pre @ [A, ConsoleLog (''Computer move: '' @ m), R,
                     ConsoleLog (''HMAC key: '' @ k), ProcessExit 0]
      \<longrightarrow> shown = generateHMAC E k m \<and> verify E k m shown)"
proof -
  have "shown = generateHMAC E k m \<and> verify E k m shown"
    if s: "start E this inputs ! 2 = ConsoleLog (''HMAC: '' @ shown)"
      and r: "start E this inputs
            = pre @ [A, ConsoleLog (''Computer move: '' @ m), R,
                     ConsoleLog (''HMAC key: '' @ k), ProcessExit 0]"
  proof -
    from start_shape [of E this inputs]
    obtain pre' fin where run: "start E this inputs
         = [RandomBytes 32, MathRandom,
            ConsoleLog (''HMAC: '' @ generateHMAC E (randomKey E) (game_moves this ! randomIndex E))]
           @ pre' @ fin"
      by (elim exE conjE)
    have "start E this inputs ! 2
          = ConsoleLog (''HMAC: '' @ generateHMAC E (randomKey E) (game_moves this ! randomIndex E))"
      unfolding run by simp
    with s have sh: "shown = generateHMAC E (randomKey E) (game_moves this ! randomIndex E)"
      by simp
    from start_reveal [OF r] have "k = randomKey E" "m = game_moves this ! randomIndex E"
      by simp_all
    with sh show ?thesis by (simp add: verify_def)
  qed
  moreover have "tag = generateHMAC E secretKey M \<longrightarrow> verify E secretKey M tag"
    by (simp add: verify_def)
  ultimately show ?thesis by blast
qed

theorem C7_witness:
  "start \<lparr> randomKey = ''ab'', randomIndex = 1, hmacSha256Hex = (\<lambda>key message. key @ message),
           tableToString = (\<lambda>head rows. concat head) \<rparr>
     (newRockPaperScissorsGame [''Rock'', ''Paper'', ''Scissors'']) [''9'', ''3'']
   = ([RandomBytes 32, MathRandom, ConsoleLog ''HMAC: abPaper'', ConsoleLog ''Available moves:'']
      @ logMoves [''Rock'', ''Paper'', ''Scissors''] 0
      @ [ConsoleLog ''0 - exit'', ConsoleLog ''? - help'', OpenStdin,
         ConsoleLog ''Invalid move. Please try again.'', ConsoleLog ''Available moves:'']
      @ logMoves [''Rock'', ''Paper'', ''Scissors''] 0
      @ [ConsoleLog ''0 - exit'', ConsoleLog ''? - help''])
     @ [ConsoleLog ''Your move: Scissors'', ConsoleLog ''Computer move: Paper'',
        ConsoleLog ''You win'', ConsoleLog ''HMAC key: ab'', ProcessExit 0]
   \<and> verify \<lparr> randomKey = ''ab'', randomIndex = 1, hmacSha256Hex = (\<lambda>key message. key @ message),
           tableToString = (\<lambda>head rows. concat head) \<rparr>
       ''ab'' ''Paper'' ''abPaper''"
proof -
  let ?E = "\<lparr> randomKey = ''ab'', randomIndex = 1, hmacSha256Hex = (\<lambda>key message. key @ message),
           tableToString = (\<lambda>head rows. concat head) \<rparr>"
  let ?G = "newRockPaperScissorsGame [''Rock'', ''Paper'', ''Scissors'']"
  let ?pre = "[RandomBytes 32, MathRandom, ConsoleLog ''HMAC: abPaper'', ConsoleLog ''Available moves:'']
      @ logMoves [''Rock'', ''Paper'', ''Scissors''] 0
      @ [ConsoleLog ''0 - exit'', ConsoleLog ''? - help'', OpenStdin,
         ConsoleLog ''Invalid move. Please try again.'', ConsoleLog ''Available moves:'']
      @ logMoves [''Rock'', ''Paper'', ''Scissors''] 0
      @ [ConsoleLog ''0 - exit'', ConsoleLog ''? - help'']"
  have run: "start ?E ?G [''9'', ''3'']
     = ?pre @ [ConsoleLog ''Your move: Scissors'', ConsoleLog (''Computer move: '' @ ''Paper''),
        ConsoleLog ''You win'', ConsoleLog (''HMAC key: '' @ ''ab''), ProcessExit 0]"
    by (simp add: start_def getUserMove_def generateKey_def generateHMAC_def
        newRockPaperScissorsGame_def newPlayRules_def determineWinner_def indexOf_def
        parseInt10_def isDigit_def digitsValue_def Let_def)
  have shown: "start ?E ?G [''9'', ''3''] ! 2 = ConsoleLog (''HMAC: '' @ ''abPaper'')"
    unfolding run by simp
  from C7_commit_verify_round_trip [of "''abPaper''" ?E "''ab''" "''Paper''" ?G "[''9'', ''3'']"
      "''abPaper''" ?pre "ConsoleLog ''Your move: Scissors''" "''Paper''" "ConsoleLog ''You win''" "''ab''"]
    shown run
  have "verify ?E ''ab'' ''Paper'' ''abPaper''" by blast
  with run show ?thesis by simp
qed

text \<open>
  C8. With the move list [Rock, Paper, Scissors]: Rock against Scissors is a win for the
  user, Rock against Paper is a win for the computer, Rock against Rock is a draw.
\<close>

theorem C8_rock_paper_scissors:
  "determineWinner (newPlayRules [''Rock'', ''Paper'', ''Scissors'']) ''Rock'' ''Scissors'' = ''You win''
   \<and> determineWinner (newPlayRules [''Rock'', ''Paper'', ''Scissors'']) ''Rock'' ''Paper'' = ''Computer wins''
   \<and> determineWinner (newPlayRules [''Rock'', ''Paper'', ''Scissors'']) ''Rock'' ''Rock'' = ''Draw''"
  by (simp add: determineWinner_def newPlayRules_def indexOf_def)

text \<open>
  C9. With the move list [Rock, Spock, Paper, Lizard, Scissors] (half = 2): Rock against
  Lizard is a win for the user and Rock against Spock is a win for the computer.
\<close>

theorem C9_five_moves:
  "determineWinner (newPlayRules [''Rock'', ''Spock'', ''Paper'', ''Lizard'', ''Scissors''])
     ''Rock'' ''Lizard'' = ''You win''
   \<and> determineWinner (newPlayRules [''Rock'', ''Spock'', ''Paper'', ''Lizard'', ''Scissors''])
     ''Rock'' ''Spock'' = ''Computer wins''"
  by (simp add: determineWinner_def newPlayRules_def indexOf_def)

text \<open>
  C10. When neither label occurs in the move list, both lookups give \<open>-1\<close> and
  \<^verbatim>\<open>determineWinner\<close> returns Draw.
\<close>

theorem C10_unknown_pair_is_draw:
  assumes "a \<notin> set (moves this)" "b \<notin> set (moves this)"
  shows "indexOf (moves this) a = - 1 \<and> indexOf (moves this) b = - 1
         \<and> determineWinner this a b = ''Draw''"
  using assms by (simp add: determineWinner_def indexOf_absent)

theorem C10_witness:
  "''Lizard'' \<notin> set (moves (newPlayRules [''Rock'', ''Paper'', ''Scissors'']))
   \<and> ''Spock'' \<notin> set (moves (newPlayRules [''Rock'', ''Paper'', ''Scissors'']))
   \<and> indexOf (moves (newPlayRules [''Rock'', ''Paper'', ''Scissors''])) ''Lizard'' = - 1
   \<and> indexOf (moves (newPlayRules [''Rock'', ''Paper'', ''Scissors''])) ''Spock'' = - 1
   \<and> determineWinner (newPlayRules [''Rock'', ''Paper'', ''Scissors'']) ''Lizard'' ''Spock'' = ''Draw''"
  using C10_unknown_pair_is_draw
    [of "''Lizard''" "newPlayRules [''Rock'', ''Paper'', ''Scissors'']" "''Spock''"]
  by (simp add: newPlayRules_def)

end
